theory Spec2Isabelle
  imports Main "HOL-Library.Word" "HOL-Library.Sublist"
begin

section \<open>Data model\<close>

text \<open>
  The program is \<^verbatim>\<open>pdf_to_doc_converter.py\<close>. Python \<^verbatim>\<open>bytes\<close> are lists of
  8-bit words, Python \<^verbatim>\<open>str\<close> is \<open>string\<close> (code points below 256), a path is a
  string and the file system maps the paths that exist to their contents.
\<close>

type_synonym bytes = "8 word list"
type_synonym path = string
type_synonym fs = "path \<Rightarrow> bytes option"

text \<open>
  Exceptions are values. The two classes the source names in its \<^verbatim>\<open>except\<close> clauses
  are constructors (each stands for the class and its subclasses, as \<^verbatim>\<open>except\<close> matches
  them); every other exception class is \<open>OtherError\<close> with the class name.
\<close>

datatype exc = OSError | ValueError | OtherError string

text \<open>
  What the program observes of a python-docx document: its paragraphs, each with a
  \<^verbatim>\<open>text\<close> attribute (the field \<open>p_text\<close>; \<open>None\<close> is Python's \<^verbatim>\<open>None\<close>).
\<close>

record docx_paragraph =
  p_text :: "string option"

record document =
  paragraphs :: "docx_paragraph list"

section \<open>The preview extractor\<close>

text \<open>
  \<^verbatim>\<open>str.isspace\<close> on one character, for the code points below 256: tab, line feed,
  vertical tab, form feed, carriage return, the separators 28 to 31, space, NEL (133) and
  the no-break space (160).
\<close>

definition isspace :: "char \<Rightarrow> bool" where
  "isspace c = ((of_char c :: nat) \<in> {9, 10, 11, 12, 13, 28, 29, 30, 31, 32, 133, 160})"

text \<open>\<^verbatim>\<open>s.strip()\<close>: leading and trailing whitespace removed.\<close>

definition strip :: "string \<Rightarrow> string" where
  "strip s = rev (dropWhile isspace (rev (dropWhile isspace s)))"

text \<open>\<^verbatim>\<open>p.text or ""\<close>: \<^verbatim>\<open>None\<close> and the empty string both give the empty string.\<close>

definition text_or_empty :: "docx_paragraph \<Rightarrow> string" where
  "text_or_empty p = (case p_text p of None \<Rightarrow> [] | Some s \<Rightarrow> (if s = [] then [] else s))"

text \<open>\<^verbatim>\<open>sep.join(xs)\<close>.\<close>

fun join :: "string \<Rightarrow> string list \<Rightarrow> string" where
  "join sep [] = []"
| "join sep [x] = x"
| "join sep (x # y # ys) = x @ sep @ join sep (y # ys)"

text \<open>
  The \<^verbatim>\<open>for p in doc.paragraphs\<close> loop of \<^verbatim>\<open>docx_text_preview\<close>, with the list
  \<^verbatim>\<open>out\<close> as accumulator: the text is trimmed, appended when it is non-empty, and the
  test \<^verbatim>\<open>len(out) >= max_paragraphs\<close> comes after the append and leaves the loop.
\<close>

fun preview_loop :: "docx_paragraph list \<Rightarrow> int \<Rightarrow> string list \<Rightarrow> string list" where
  "preview_loop [] max_paragraphs out = out"
| "preview_loop (p # ps) max_paragraphs out =
     (let t = strip (text_or_empty p);
          out' = (if t \<noteq> [] then out @ [t] else out)
      in if int (length out') \<ge> max_paragraphs then out'
         else preview_loop ps max_paragraphs out')"

text \<open>
  \<^verbatim>\<open>docx_text_preview(docx_bytes, max_paragraphs)\<close>. The reader
  \<^verbatim>\<open>Document(BytesIO(docx_bytes))\<close> belongs to python-docx and is a parameter; an
  exception it raises leaves the function.
\<close>

definition newline :: string where
  "newline = [CHR 0x0A]"

definition docx_text_preview ::
  "(bytes \<Rightarrow> exc + document) \<Rightarrow> bytes \<Rightarrow> int \<Rightarrow> exc + string" where
  "docx_text_preview Document_BytesIO docx_bytes max_paragraphs =
     (case Document_BytesIO docx_bytes of
        Inl e \<Rightarrow> Inl e
      | Inr doc \<Rightarrow> Inr (join newline (preview_loop (paragraphs doc) max_paragraphs [])))"

text \<open>A document given by the texts of its paragraphs.\<close>

definition doc_of_texts :: "string list \<Rightarrow> document" where
  "doc_of_texts ts = \<lparr>paragraphs = map (\<lambda>s. \<lparr>p_text = Some s\<rparr>) ts\<rparr>"

section \<open>The world the pipeline runs in\<close>

text \<open>
  The program acts on the file system and calls two libraries. The state is the file
  system together with the list of the calls made so far, oldest first; a computation
  takes the state and returns an exception or a value, and the new state.
\<close>

datatype call =
    Call_NamedTemporaryFile string
  | Call_write path bytes
  | Call_flush path
  | Call_mktemp string
  | Call_Converter path
  | Call_convert path int "int option" bool
  | Call_close
  | Call_Document path
  | Call_save path
  | Call_open_rb path
  | Call_exists path
  | Call_unlink path

record world =
  files :: fs
  calls :: "call list"

text \<open>
  What the program does not decide is a parameter: the name \<^verbatim>\<open>tempfile\<close> picks for a
  suffix, whether the operating system refuses a file operation (it then raises
  \<^verbatim>\<open>OSError\<close>), and the behaviour of pdf2docx (\<^verbatim>\<open>Converter\<close>, \<^verbatim>\<open>convert\<close>,
  \<^verbatim>\<open>close\<close>) and of python-docx (\<^verbatim>\<open>Document\<close>, \<^verbatim>\<open>save\<close>). Opening and closing read
  the file system; \<^verbatim>\<open>convert\<close> and \<^verbatim>\<open>save\<close> may change it, also when they raise.
\<close>

record 'cv env =
  tmp_name :: "string \<Rightarrow> fs \<Rightarrow> path"
  os_fails :: "call \<Rightarrow> fs \<Rightarrow> bool"
  lib_Converter :: "path \<Rightarrow> fs \<Rightarrow> exc + 'cv"
  lib_convert :: "'cv \<Rightarrow> path \<Rightarrow> int \<Rightarrow> int option \<Rightarrow> bool \<Rightarrow> fs \<Rightarrow> (exc + unit) \<times> fs"
  lib_close :: "'cv \<Rightarrow> fs \<Rightarrow> exc + unit"
  lib_Document :: "path \<Rightarrow> fs \<Rightarrow> exc + document"
  lib_save :: "document \<Rightarrow> path \<Rightarrow> fs \<Rightarrow> (exc + unit) \<times> fs"

type_synonym 'a io = "world \<Rightarrow> (exc + 'a) \<times> world"

text \<open>One call: it is recorded, and its effect on the file system is applied.\<close>

definition perform :: "call \<Rightarrow> (fs \<Rightarrow> (exc + 'a) \<times> fs) \<Rightarrow> 'a io" where
  "perform c f w = (case f (files w) of (r, fs') \<Rightarrow> (r, \<lparr>files = fs', calls = calls w @ [c]\<rparr>))"

text \<open>Sequencing: an exception of the first computation skips the second.\<close>

definition and_then :: "'a io \<Rightarrow> ('a \<Rightarrow> 'b io) \<Rightarrow> 'b io" where
  "and_then m f w = (case m w of (Inl e, w') \<Rightarrow> (Inl e, w') | (Inr v, w') \<Rightarrow> f v w')"

definition return :: "'a \<Rightarrow> 'a io" where
  "return v w = (Inr v, w)"

text \<open>
  \<^verbatim>\<open>try: m finally: fin\<close>. The \<^verbatim>\<open>finally\<close> block runs after \<open>m\<close> whatever \<open>m\<close> did; an
  exception of the block replaces the outcome of \<open>m\<close>, otherwise that outcome stands.
\<close>

definition try_finally :: "'a io \<Rightarrow> unit io \<Rightarrow> 'a io" where
  "try_finally m fin w =
     (case m w of (r, w1) \<Rightarrow>
        (case fin w1 of (Inl e, w2) \<Rightarrow> (Inl e, w2) | (Inr u, w2) \<Rightarrow> (r, w2)))"

subsection \<open>File operations\<close>

text \<open>
  \<^verbatim>\<open>tempfile.NamedTemporaryFile(delete=False, suffix=...)\<close> creates an empty file and
  gives its name; \<^verbatim>\<open>write\<close> (here \<open>file_write\<close>) appends to the file; \<^verbatim>\<open>flush\<close>
  (here \<open>file_flush\<close>) leaves the contents;
  \<^verbatim>\<open>tempfile.mktemp\<close> gives a name and creates nothing.
\<close>

definition NamedTemporaryFile :: "'cv env \<Rightarrow> string \<Rightarrow> path io" where
  "NamedTemporaryFile E sfx =
     perform (Call_NamedTemporaryFile sfx)
       (\<lambda>fs. if os_fails E (Call_NamedTemporaryFile sfx) fs then (Inl OSError, fs)
             else (Inr (tmp_name E sfx fs), fs(tmp_name E sfx fs \<mapsto> [])))"

definition file_write :: "'cv env \<Rightarrow> path \<Rightarrow> bytes \<Rightarrow> unit io" where
  "file_write E p b =
     perform (Call_write p b)
       (\<lambda>fs. if os_fails E (Call_write p b) fs then (Inl OSError, fs)
             else (case fs p of None \<Rightarrow> (Inr (), fs)
                   | Some old \<Rightarrow> (Inr (), fs(p \<mapsto> old @ b))))"

definition file_flush :: "'cv env \<Rightarrow> path \<Rightarrow> unit io" where
  "file_flush E p =
     perform (Call_flush p)
       (\<lambda>fs. if os_fails E (Call_flush p) fs then (Inl OSError, fs) else (Inr (), fs))"

definition mktemp :: "'cv env \<Rightarrow> string \<Rightarrow> path io" where
  "mktemp E sfx =
     perform (Call_mktemp sfx)
       (\<lambda>fs. if os_fails E (Call_mktemp sfx) fs then (Inl OSError, fs)
             else (Inr (tmp_name E sfx fs), fs))"

text \<open>\<^verbatim>\<open>open(p, "rb")\<close> followed by \<^verbatim>\<open>f.read()\<close>: the whole contents of the file.\<close>

definition open_rb :: "'cv env \<Rightarrow> path \<Rightarrow> bytes io" where
  "open_rb E p =
     perform (Call_open_rb p)
       (\<lambda>fs. case fs p of None \<Rightarrow> (Inl OSError, fs)
             | Some b \<Rightarrow> if os_fails E (Call_open_rb p) fs then (Inl OSError, fs)
                         else (Inr b, fs))"

text \<open>\<^verbatim>\<open>os.path.exists\<close> never raises; \<^verbatim>\<open>os.unlink\<close> raises \<^verbatim>\<open>OSError\<close> when the file is
  missing or the operating system refuses, and removes the file otherwise.\<close>

definition exists :: "path \<Rightarrow> bool io" where
  "exists p = perform (Call_exists p) (\<lambda>fs. (Inr (fs p \<noteq> None), fs))"

definition unlink :: "'cv env \<Rightarrow> path \<Rightarrow> unit io" where
  "unlink E p =
     perform (Call_unlink p)
       (\<lambda>fs. if fs p = None \<or> os_fails E (Call_unlink p) fs then (Inl OSError, fs)
             else (Inr (), fs(p := None)))"

subsection \<open>Library calls\<close>

definition Converter :: "'cv env \<Rightarrow> path \<Rightarrow> 'cv io" where
  "Converter E pdf_file = perform (Call_Converter pdf_file) (\<lambda>fs. (lib_Converter E pdf_file fs, fs))"

definition convert :: "'cv env \<Rightarrow> 'cv \<Rightarrow> path \<Rightarrow> int \<Rightarrow> int option \<Rightarrow> bool \<Rightarrow> unit io" where
  "convert E cv docx_filename start end' layout =
     perform (Call_convert docx_filename start end' layout)
       (lib_convert E cv docx_filename start end' layout)"

definition close :: "'cv env \<Rightarrow> 'cv \<Rightarrow> unit io" where
  "close E cv = perform Call_close (\<lambda>fs. (lib_close E cv fs, fs))"

definition Document :: "'cv env \<Rightarrow> path \<Rightarrow> document io" where
  "Document E docx_path = perform (Call_Document docx_path) (\<lambda>fs. (lib_Document E docx_path fs, fs))"

definition save :: "'cv env \<Rightarrow> document \<Rightarrow> path \<Rightarrow> unit io" where
  "save E doc docx_path = perform (Call_save docx_path) (lib_save E doc docx_path)"

section \<open>The conversion pipeline\<close>

text \<open>
  \<^verbatim>\<open>_post_process_docx(docx_path)\<close>: the document is opened, and \<^verbatim>\<open>OSError\<close> or
  \<^verbatim>\<open>ValueError\<close> there makes the function return; the document is saved to the same
  path, and \<^verbatim>\<open>OSError\<close> there makes the function return. No other exception is caught.
\<close>

definition post_process_docx :: "'cv env \<Rightarrow> path \<Rightarrow> unit io" where
  "post_process_docx E docx_path w =
     (case Document E docx_path w of
        (Inl e, w1) \<Rightarrow> if e = OSError \<or> e = ValueError then (Inr (), w1) else (Inl e, w1)
      | (Inr doc, w1) \<Rightarrow>
          (case save E doc docx_path w1 of
             (Inl e, w2) \<Rightarrow> if e = OSError then (Inr (), w2) else (Inl e, w2)
           | (Inr u, w2) \<Rightarrow> (Inr (), w2)))"

text \<open>
  The \<^verbatim>\<open>finally\<close> block: for each path in turn, \<^verbatim>\<open>if p and os.path.exists(p):
  os.unlink(p)\<close> inside \<^verbatim>\<open>try ... except OSError: pass\<close>.
\<close>

definition remove_if_exists :: "'cv env \<Rightarrow> path \<Rightarrow> unit io" where
  "remove_if_exists E p w =
     (case (if p \<noteq> [] then and_then (exists p) (\<lambda>found. if found then unlink E p else return ())
            else return ()) w of
        (Inl e, w1) \<Rightarrow> if e = OSError then (Inr (), w1) else (Inl e, w1)
      | (Inr u, w1) \<Rightarrow> (Inr (), w1))"

fun finally_cleanup :: "'cv env \<Rightarrow> path list \<Rightarrow> unit io" where
  "finally_cleanup E [] = return ()"
| "finally_cleanup E (p # ps) = and_then (remove_if_exists E p) (\<lambda>u. finally_cleanup E ps)"

definition status_message :: string where
  "status_message = ''Converted with pdf2docx (layout=True) + post-processing''"

text \<open>The body of the \<^verbatim>\<open>try\<close> block of \<^verbatim>\<open>convert_pdf_bytes_to_docx\<close>.\<close>

definition convert_body :: "'cv env \<Rightarrow> path \<Rightarrow> path \<Rightarrow> (bytes \<times> string) io" where
  "convert_body E pdf_path out_docx_path =
     and_then (Converter E pdf_path) (\<lambda>cv.
     and_then (convert E cv out_docx_path 0 None True) (\<lambda>u.
     and_then (close E cv) (\<lambda>u.
     and_then (post_process_docx E out_docx_path) (\<lambda>u.
     and_then (open_rb E out_docx_path) (\<lambda>data.
     return (data, status_message))))))"

text \<open>
  \<^verbatim>\<open>convert_pdf_bytes_to_docx(pdf_bytes)\<close>: the \<^verbatim>\<open>with\<close> block that writes the input,
  the name of the output, then the \<^verbatim>\<open>try\<close> block with its \<^verbatim>\<open>finally\<close>.
\<close>

definition convert_pdf_bytes_to_docx :: "'cv env \<Rightarrow> bytes \<Rightarrow> (bytes \<times> string) io" where
  "convert_pdf_bytes_to_docx E pdf_bytes =
     and_then (NamedTemporaryFile E ''.pdf'') (\<lambda>pdf_path.
     and_then (file_write E pdf_path pdf_bytes) (\<lambda>u.
     and_then (file_flush E pdf_path) (\<lambda>u.
     and_then (mktemp E ''.docx'') (\<lambda>out_docx_path.
     try_finally (convert_body E pdf_path out_docx_path)
                 (finally_cleanup E [pdf_path, out_docx_path])))))"

section \<open>The specification's notions\<close>

text \<open>
  The preview as the specification words it: the paragraphs in document order, each
  trimmed, the empty ones dropped, at most \<open>cap\<close> of them kept.
\<close>

definition kept_paragraphs :: "docx_paragraph list \<Rightarrow> int \<Rightarrow> string list" where
  "kept_paragraphs ps cap =
     take (nat cap) (filter (\<lambda>t. t \<noteq> []) (map (\<lambda>p. strip (text_or_empty p)) ps))"

text \<open>
  The number of newline-separated lines of a string: one more than its line feeds, and
  none for the empty string.
\<close>

definition line_count :: "string \<Rightarrow> nat" where
  "line_count s = (if s = [] then 0 else Suc (count_list s (CHR 0x0A)))"

text \<open>
  A rejected input, as the libraries see it: on any file that holds these bytes,
  \<^verbatim>\<open>Converter\<close> raises \<open>e\<close>, or it returns and \<^verbatim>\<open>convert\<close> over the full page range
  with the layout option raises \<open>e\<close>.
\<close>

definition converter_rejects :: "'cv env \<Rightarrow> bytes \<Rightarrow> exc \<Rightarrow> bool" where
  "converter_rejects E pdf_bytes e \<longleftrightarrow>
     (\<forall>p fs. fs p = Some pdf_bytes \<longrightarrow>
        lib_Converter E p fs = Inl e
        \<or> (\<exists>cv. lib_Converter E p fs = Inr cv
              \<and> (\<forall>out. fst (lib_convert E cv out 0 None True fs) = Inl e)))"

section \<open>Concrete environments\<close>

text \<open>A reader that parses every byte string to the given document.\<close>

definition reader_of :: "document \<Rightarrow> bytes \<Rightarrow> exc + document" where
  "reader_of d b = Inr d"

text \<open>
  An environment in which nothing is refused: temporary names are \<^verbatim>\<open>/tmp/tmp0\<close> plus the
  suffix, the converter accepts the files that start with \<^verbatim>\<open>%PDF\<close> and writes a file that
  starts with the zip signature, and python-docx opens every file that exists.
\<close>

definition pdf_magic :: bytes where
  "pdf_magic = [0x25, 0x50, 0x44, 0x46]"

definition zip_magic :: bytes where
  "zip_magic = [0x50, 0x4B, 0x03, 0x04]"

definition demo_env :: "path env" where
  "demo_env =
     \<lparr>tmp_name = (\<lambda>sfx fs. ''/tmp/tmp0'' @ sfx),
      os_fails = (\<lambda>c fs. False),
      lib_Converter = (\<lambda>p fs. case fs p of
                          None \<Rightarrow> Inl (OtherError ''FileNotFoundError'')
                        | Some b \<Rightarrow> if take 4 b = pdf_magic then Inr p
                                    else Inl (OtherError ''FileDataError'')),
      lib_convert = (\<lambda>cv out start end' layout fs. (Inr (), fs(out \<mapsto> zip_magic))),
      lib_close = (\<lambda>cv fs. Inr ()),
      lib_Document = (\<lambda>p fs. case fs p of
                         None \<Rightarrow> Inl (OtherError ''PackageNotFoundError'')
                       | Some b \<Rightarrow> Inr (doc_of_texts [''Hello''])),
      lib_save = (\<lambda>doc p fs. (Inr (), fs(p \<mapsto> zip_magic)))\<rparr>"

text \<open>The same, with a \<^verbatim>\<open>save\<close> that raises \<^verbatim>\<open>ValueError\<close> and writes nothing.\<close>

definition env_save_ValueError :: "path env" where
  "env_save_ValueError = demo_env\<lparr>lib_save := (\<lambda>doc p fs. (Inl ValueError, fs))\<rparr>"

text \<open>The same, with a \<^verbatim>\<open>save\<close> that raises \<^verbatim>\<open>OSError\<close> and writes nothing.\<close>

definition env_save_OSError :: "path env" where
  "env_save_OSError = demo_env\<lparr>lib_save := (\<lambda>doc p fs. (Inl OSError, fs))\<rparr>"


text \<open>The same, with an operating system that refuses every \<^verbatim>\<open>unlink\<close>.\<close>

definition env_unlink_refused :: "path env" where
  "env_unlink_refused =
     demo_env\<lparr>os_fails := (\<lambda>c fs. case c of Call_unlink p \<Rightarrow> True | _ \<Rightarrow> False)\<rparr>"

text \<open>The same, with a \<^verbatim>\<open>Document\<close> that raises \<^verbatim>\<open>ValueError\<close> on every path.\<close>

definition env_open_ValueError :: "path env" where
  "env_open_ValueError = demo_env\<lparr>lib_Document := (\<lambda>p fs. Inl ValueError)\<rparr>"

text \<open>The same, with a \<^verbatim>\<open>Document\<close> that raises a python-docx exception on every path.\<close>

definition env_open_PackageNotFound :: "path env" where
  "env_open_PackageNotFound =
     demo_env\<lparr>lib_Document := (\<lambda>p fs. Inl (OtherError ''PackageNotFoundError''))\<rparr>"

text \<open>A world without files, and a world that holds one produced document.\<close>

definition docx_world :: world where
  "docx_world = \<lparr>files = (\<lambda>p. if p = ''/tmp/out.docx'' then Some zip_magic else None),
                  calls = []\<rparr>"

definition empty_world :: world where
  "empty_world = \<lparr>files = (\<lambda>p. None), calls = []\<rparr>"

section \<open>Properties of the preview extractor\<close>

text \<open>
  While fewer than \<open>m\<close> texts are kept, the loop appends the first trimmed non-empty
  texts that are still missing.
\<close>

lemma preview_loop_take:
  "int (length out) < m \<Longrightarrow>
   preview_loop ps m out =
     out @ take (nat m - length out) (filter (\<lambda>t. t \<noteq> []) (map (\<lambda>p. strip (text_or_empty p)) ps))"
proof (induction ps arbitrary: out)
  case Nil
  then show ?case by simp
next
  case (Cons p ps)
  show ?case
  proof (cases "strip (text_or_empty p) = []")
    case True
    with Cons show ?thesis by simp
  next
    case False
    show ?thesis
    proof (cases "int (length out) + 1 \<ge> m")
      case True
      with Cons.prems have "nat m - length out = Suc 0" by linarith
      with False True show ?thesis by (simp add: Let_def)
    next
      case False2: False
      then have lt: "int (length (out @ [strip (text_or_empty p)])) < m" by simp
      from False2 Cons.prems have k: "nat m - length out = Suc (nat m - Suc (length out))"
        by linarith
      from Cons.IH[OF lt] False False2 k show ?thesis by (simp add: Let_def)
    qed
  qed
qed

lemma preview_loop_nonpos:
  "m \<le> 0 \<Longrightarrow> preview_loop ps m [] = (case ps of [] \<Rightarrow> [] | p # _ \<Rightarrow> (if strip (text_or_empty p) \<noteq> [] then [strip (text_or_empty p)] else []))"
  by (cases ps) (auto simp: Let_def)

lemma strip_empty_iff: "strip s = [] \<longleftrightarrow> (\<forall>c\<in>set s. isspace c)"
proof
  assume "strip s = []"
  then have all: "\<forall>x\<in>set (dropWhile isspace s). isspace x"
    by (simp add: strip_def dropWhile_eq_Nil_conv)
  have "dropWhile isspace s = []"
  proof (rule ccontr)
    assume ne: "dropWhile isspace s \<noteq> []"
    then have "\<not> isspace (hd (dropWhile isspace s))" by (rule hd_dropWhile)
    moreover from ne have "hd (dropWhile isspace s) \<in> set (dropWhile isspace s)" by simp
    ultimately show False using all by blast
  qed
  then show "\<forall>c\<in>set s. isspace c" by (simp add: dropWhile_eq_Nil_conv)
next
  assume "\<forall>c\<in>set s. isspace c"
  then have "dropWhile isspace s = []" by (simp add: dropWhile_eq_Nil_conv)
  then show "strip s = []" unfolding strip_def by (simp only: rev.simps dropWhile.simps)
qed

lemma count_join:
  "\<forall>t\<in>set ts. CHR 0x0A \<notin> set t \<Longrightarrow> ts \<noteq> [] \<Longrightarrow> Suc (count_list (join newline ts) (CHR 0x0A)) = length ts"
  by (induction newline ts rule: join.induct) (auto simp: newline_def count_list_0_iff count_list_append)

lemma line_count_join:
  "\<forall>t\<in>set ts. CHR 0x0A \<notin> set t \<Longrightarrow> line_count (join newline ts) \<le> length ts"
  by (cases "ts = []") (auto simp: line_count_def count_join)

lemma subseq_take: "subseq (take n xs) xs"
proof -
  have "subseq (take n xs) (take n xs @ drop n xs)" by (rule subseq_rev_drop_many) simp
  then show ?thesis by simp
qed

lemma kept_subseq: "subseq (kept_paragraphs ps m) (map (\<lambda>p. strip (text_or_empty p)) ps)"
  unfolding kept_paragraphs_def
  by (rule subseq_order.trans [OF subseq_take subseq_filter_left])

section \<open>Properties of the pipeline's building blocks\<close>

lemmas env_defs = demo_env_def empty_world_def pdf_magic_def zip_magic_def

lemmas op_defs = perform_def and_then_def return_def try_finally_def NamedTemporaryFile_def
  file_write_def file_flush_def mktemp_def open_rb_def exists_def unlink_def Converter_def
  convert_def close_def Document_def save_def post_process_docx_def remove_if_exists_def
  convert_body_def convert_pdf_bytes_to_docx_def status_message_def

text \<open>
  A sequence that returns a value: its first part returned a value, and the rest
  returned from there.
\<close>

lemma and_then_success:
  assumes "and_then m f w = (Inr r, w')"
  obtains v w1 where "m w = (Inr v, w1)" and "f v w1 = (Inr r, w')"
  using assms by (auto simp: and_then_def split: prod.splits sum.splits)

text \<open>
  The \<^verbatim>\<open>finally\<close> block never raises: \<^verbatim>\<open>os.unlink\<close> raises \<^verbatim>\<open>OSError\<close> only, and the
  block catches it. So the outcome of the \<^verbatim>\<open>try\<close> block stands.
\<close>

lemma remove_if_exists_returns: "fst (remove_if_exists E p w) = Inr ()"
  by (simp add: remove_if_exists_def and_then_def exists_def unlink_def return_def perform_def
      split: prod.splits sum.splits)

lemma finally_cleanup_returns: "fst (finally_cleanup E ps w) = Inr ()"
proof (induction ps arbitrary: w)
  case Nil
  show ?case by (simp add: return_def)
next
  case (Cons p ps)
  obtain w1 where "remove_if_exists E p w = (Inr (), w1)"
    using remove_if_exists_returns [of E p w] by (cases "remove_if_exists E p w") simp
  then show ?case using Cons.IH [of w1] by (simp add: and_then_def)
qed

lemma try_finally_cleanup:
  "try_finally m (finally_cleanup E ps) w
     = (fst (m w), snd (finally_cleanup E ps (snd (m w))))"
proof -
  obtain r w1 where m: "m w = (r, w1)" by (cases "m w")
  obtain w2 where "finally_cleanup E ps w1 = (Inr (), w2)"
    using finally_cleanup_returns [of E ps w1] by (cases "finally_cleanup E ps w1") simp
  with m show ?thesis by (simp add: try_finally_def)
qed

text \<open>
  What the \<^verbatim>\<open>finally\<close> block does to the files and which calls it makes.
\<close>

lemma remove_if_exists_files:
  "files (snd (remove_if_exists E p w)) =
     (if p \<noteq> [] \<and> files w p \<noteq> None \<and> \<not> os_fails E (Call_unlink p) (files w)
      then (files w)(p := None) else files w)"
  by (simp add: remove_if_exists_def and_then_def exists_def unlink_def return_def perform_def
      split: prod.splits sum.splits)

lemma remove_if_exists_calls:
  "\<exists>c. calls (snd (remove_if_exists E p w)) = calls w @ c
       \<and> (\<forall>x\<in>set c. x = Call_exists p \<or> x = Call_unlink p)"
  by (simp add: remove_if_exists_def and_then_def exists_def unlink_def return_def perform_def
      split: prod.splits sum.splits)

lemma finally_cleanup_keeps_absent:
  "files w p = None \<Longrightarrow> files (snd (finally_cleanup E ps w)) p = None"
proof (induction ps arbitrary: w)
  case Nil
  then show ?case by (simp add: return_def)
next
  case (Cons q ps)
  obtain w1 where r: "remove_if_exists E q w = (Inr (), w1)"
    using remove_if_exists_returns [of E q w] by (cases "remove_if_exists E q w") simp
  then have "files w1 = files (snd (remove_if_exists E q w))" by simp
  with Cons.prems have "files w1 p = None" by (simp add: remove_if_exists_files)
  then have "files (snd (finally_cleanup E ps w1)) p = None" by (rule Cons.IH)
  with r show ?case by (simp add: and_then_def)
qed

lemma finally_cleanup_removes:
  "p \<in> set ps \<Longrightarrow> p \<noteq> [] \<Longrightarrow> \<forall>fs. \<not> os_fails E (Call_unlink p) fs \<Longrightarrow>
   files (snd (finally_cleanup E ps w)) p = None"
proof (induction ps arbitrary: w)
  case Nil
  then show ?case by simp
next
  case (Cons q ps)
  obtain w1 where r: "remove_if_exists E q w = (Inr (), w1)"
    using remove_if_exists_returns [of E q w] by (cases "remove_if_exists E q w") simp
  then have f1: "files w1 = files (snd (remove_if_exists E q w))" by simp
  have "files (snd (finally_cleanup E ps w1)) p = None"
  proof (cases "p = q")
    case True
    with Cons.prems f1 have "files w1 p = None" by (simp add: remove_if_exists_files)
    then show ?thesis by (rule finally_cleanup_keeps_absent)
  next
    case False
    with Cons.prems have "p \<in> set ps" by simp
    then show ?thesis using Cons.prems(2,3) by (rule Cons.IH)
  qed
  with r show ?case by (simp add: and_then_def)
qed

lemma finally_cleanup_calls:
  "\<exists>c. calls (snd (finally_cleanup E ps w)) = calls w @ c
       \<and> (\<forall>x\<in>set c. \<exists>p\<in>set ps. x = Call_exists p \<or> x = Call_unlink p)"
proof (induction ps arbitrary: w)
  case Nil
  show ?case by (simp add: return_def)
next
  case (Cons q ps)
  obtain w1 where r: "remove_if_exists E q w = (Inr (), w1)"
    using remove_if_exists_returns [of E q w] by (cases "remove_if_exists E q w") simp
  from remove_if_exists_calls [of E q w] r obtain c1 where
    c1: "calls w1 = calls w @ c1" "\<forall>x\<in>set c1. x = Call_exists q \<or> x = Call_unlink q"
    by auto
  from Cons.IH [of w1] obtain c2 where
    c2: "calls (snd (finally_cleanup E ps w1)) = calls w1 @ c2"
        "\<forall>x\<in>set c2. \<exists>p\<in>set ps. x = Call_exists p \<or> x = Call_unlink p"
    by auto
  have "calls (snd (finally_cleanup E (q # ps) w)) = calls w @ (c1 @ c2)"
    using r c1(1) c2(1) by (simp add: and_then_def)
  moreover have "\<forall>x\<in>set (c1 @ c2). \<exists>p\<in>set (q # ps). x = Call_exists p \<or> x = Call_unlink p"
    using c1(2) c2(2) by auto
  ultimately show ?case by blast
qed

text \<open>
  A successful conversion, step by step: every call of the function returned, in the
  order of the source.
\<close>

lemma convert_success_chain:
  assumes "convert_pdf_bytes_to_docx E pdf_bytes w = (Inr (data, status), w')"
  obtains pdf_path w1 w2 w3 out w4 cv w5 w6 w7 w8 w9 where
    "NamedTemporaryFile E ''.pdf'' w = (Inr pdf_path, w1)"
    "file_write E pdf_path pdf_bytes w1 = (Inr (), w2)"
    "file_flush E pdf_path w2 = (Inr (), w3)"
    "mktemp E ''.docx'' w3 = (Inr out, w4)"
    "Converter E pdf_path w4 = (Inr cv, w5)"
    "convert E cv out 0 None True w5 = (Inr (), w6)"
    "close E cv w6 = (Inr (), w7)"
    "post_process_docx E out w7 = (Inr (), w8)"
    "open_rb E out w8 = (Inr data, w9)"
    "status = status_message"
    "w' = snd (finally_cleanup E [pdf_path, out] w9)"
proof -
  from assms [unfolded convert_pdf_bytes_to_docx_def]
  obtain pdf_path w1 where s1: "NamedTemporaryFile E ''.pdf'' w = (Inr pdf_path, w1)"
    and r1: "and_then (file_write E pdf_path pdf_bytes) (\<lambda>u.
             and_then (file_flush E pdf_path) (\<lambda>u.
             and_then (mktemp E ''.docx'') (\<lambda>out_docx_path.
             try_finally (convert_body E pdf_path out_docx_path)
                 (finally_cleanup E [pdf_path, out_docx_path])))) w1 = (Inr (data, status), w')"
    by (rule and_then_success)
  from r1 obtain u2 w2 where s2: "file_write E pdf_path pdf_bytes w1 = (Inr u2, w2)"
    and r2: "and_then (file_flush E pdf_path) (\<lambda>u.
             and_then (mktemp E ''.docx'') (\<lambda>out_docx_path.
             try_finally (convert_body E pdf_path out_docx_path)
                 (finally_cleanup E [pdf_path, out_docx_path]))) w2 = (Inr (data, status), w')"
    by (rule and_then_success)
  from r2 obtain u3 w3 where s3: "file_flush E pdf_path w2 = (Inr u3, w3)"
    and r3: "and_then (mktemp E ''.docx'') (\<lambda>out_docx_path.
             try_finally (convert_body E pdf_path out_docx_path)
                 (finally_cleanup E [pdf_path, out_docx_path])) w3 = (Inr (data, status), w')"
    by (rule and_then_success)
  from r3 obtain out w4 where s4: "mktemp E ''.docx'' w3 = (Inr out, w4)"
    and r4: "try_finally (convert_body E pdf_path out)
                 (finally_cleanup E [pdf_path, out]) w4 = (Inr (data, status), w')"
    by (rule and_then_success)
  from r4 [unfolded try_finally_cleanup]
  have b: "fst (convert_body E pdf_path out w4) = Inr (data, status)"
    and w': "w' = snd (finally_cleanup E [pdf_path, out] (snd (convert_body E pdf_path out w4)))"
    by simp_all
  define w9 where "w9 = snd (convert_body E pdf_path out w4)"
  from b have body: "convert_body E pdf_path out w4 = (Inr (data, status), w9)"
    unfolding w9_def by (cases "convert_body E pdf_path out w4") simp
  from body [unfolded convert_body_def]
  obtain cv w5 where s5: "Converter E pdf_path w4 = (Inr cv, w5)"
    and r5: "and_then (convert E cv out 0 None True) (\<lambda>u.
             and_then (close E cv) (\<lambda>u.
             and_then (post_process_docx E out) (\<lambda>u.
             and_then (open_rb E out) (\<lambda>data.
             return (data, status_message))))) w5 = (Inr (data, status), w9)"
    by (rule and_then_success)
  from r5 obtain u6 w6 where s6: "convert E cv out 0 None True w5 = (Inr u6, w6)"
    and r6: "and_then (close E cv) (\<lambda>u.
             and_then (post_process_docx E out) (\<lambda>u.
             and_then (open_rb E out) (\<lambda>data.
             return (data, status_message)))) w6 = (Inr (data, status), w9)"
    by (rule and_then_success)
  from r6 obtain u7 w7 where s7: "close E cv w6 = (Inr u7, w7)"
    and r7: "and_then (post_process_docx E out) (\<lambda>u.
             and_then (open_rb E out) (\<lambda>data.
             return (data, status_message))) w7 = (Inr (data, status), w9)"
    by (rule and_then_success)
  from r7 obtain u8 w8 where s8: "post_process_docx E out w7 = (Inr u8, w8)"
    and r8: "and_then (open_rb E out) (\<lambda>data.
             return (data, status_message)) w8 = (Inr (data, status), w9)"
    by (rule and_then_success)
  from r8 obtain d w9' where s9: "open_rb E out w8 = (Inr d, w9')"
    and r9: "return (d, status_message) w9' = (Inr (data, status), w9)"
    by (rule and_then_success)
  from r9 have e: "d = data" "status = status_message" "w9' = w9"
    by (simp_all add: return_def)
  show thesis
    using that [of pdf_path w1 w2 w3 out w4 cv w5 w6 w7 w8 w9] s1 s2 s3 s4 s5 s6 s7 s8 s9 e w' w9_def
    by simp
qed

lemma post_process_docx_calls:
  "\<exists>v. calls (snd (post_process_docx E p w)) = calls w @ [Call_Document p] @ v
       \<and> (v = [] \<or> v = [Call_save p])"
  by (simp add: post_process_docx_def Document_def save_def perform_def
      split: prod.splits sum.splits)

lemma open_rb_content: "open_rb E p w = (Inr data, w1) \<Longrightarrow> files w p = Some data \<and> files w1 = files w"
  by (auto simp: open_rb_def perform_def split: option.splits if_splits)

text \<open>
  The steps before the \<^verbatim>\<open>try\<close> block: after them the temporary input file holds the
  input bytes; they all return when the operating system refuses nothing.
\<close>

lemma prefix_persists:
  assumes "NamedTemporaryFile E ''.pdf'' w = (Inr pdf_path, w1)"
      and "file_write E pdf_path pdf_bytes w1 = (Inr (), w2)"
      and "file_flush E pdf_path w2 = (Inr (), w3)"
      and "mktemp E ''.docx'' w3 = (Inr out, w4)"
  shows "files w4 pdf_path = Some pdf_bytes"
proof -
  from assms(1) have "files w1 pdf_path = Some []"
    by (auto simp: NamedTemporaryFile_def perform_def split: if_splits)
  with assms(2) have "files w2 pdf_path = Some pdf_bytes"
    by (auto simp: file_write_def perform_def split: if_splits)
  with assms(3) have "files w3 pdf_path = Some pdf_bytes"
    by (auto simp: file_flush_def perform_def split: if_splits)
  with assms(4) show ?thesis
    by (auto simp: mktemp_def perform_def split: if_splits)
qed

lemma prefix_runs:
  assumes "\<forall>c fs. \<not> os_fails E c fs"
  obtains pdf_path w1 w2 w3 out w4 where
    "NamedTemporaryFile E ''.pdf'' w = (Inr pdf_path, w1)"
    "file_write E pdf_path pdf_bytes w1 = (Inr (), w2)"
    "file_flush E pdf_path w2 = (Inr (), w3)"
    "mktemp E ''.docx'' w3 = (Inr out, w4)"
proof -
  define pdf_path where "pdf_path = tmp_name E ''.pdf'' (files w)"
  define w1 where "w1 = snd (NamedTemporaryFile E ''.pdf'' w)"
  have s1: "NamedTemporaryFile E ''.pdf'' w = (Inr pdf_path, w1)"
    using assms by (simp add: w1_def pdf_path_def NamedTemporaryFile_def perform_def)
  then have f1: "files w1 pdf_path = Some []"
    by (auto simp: NamedTemporaryFile_def perform_def split: if_splits)
  define w2 where "w2 = snd (file_write E pdf_path pdf_bytes w1)"
  have s2: "file_write E pdf_path pdf_bytes w1 = (Inr (), w2)"
    using assms f1 by (simp add: w2_def file_write_def perform_def)
  define w3 where "w3 = snd (file_flush E pdf_path w2)"
  have s3: "file_flush E pdf_path w2 = (Inr (), w3)"
    using assms by (simp add: w3_def file_flush_def perform_def)
  define out where "out = tmp_name E ''.docx'' (files w3)"
  define w4 where "w4 = snd (mktemp E ''.docx'' w3)"
  have s4: "mktemp E ''.docx'' w3 = (Inr out, w4)"
    using assms by (simp add: w4_def out_def mktemp_def perform_def)
  from s1 s2 s3 s4 show thesis by (rule that)
qed

lemma convert_after_prefix:
  assumes "NamedTemporaryFile E ''.pdf'' w = (Inr pdf_path, w1)"
      and "file_write E pdf_path pdf_bytes w1 = (Inr (), w2)"
      and "file_flush E pdf_path w2 = (Inr (), w3)"
      and "mktemp E ''.docx'' w3 = (Inr out, w4)"
  shows "convert_pdf_bytes_to_docx E pdf_bytes w
           = (fst (convert_body E pdf_path out w4),
              snd (finally_cleanup E [pdf_path, out] (snd (convert_body E pdf_path out w4))))"
proof -
  have "convert_pdf_bytes_to_docx E pdf_bytes w
          = try_finally (convert_body E pdf_path out) (finally_cleanup E [pdf_path, out]) w4"
    unfolding convert_pdf_bytes_to_docx_def and_then_def using assms by simp
  then show ?thesis by (simp only: try_finally_cleanup)
qed

text \<open>
  The outcome and the files of the validation pass in terms of the two library calls.
\<close>

lemma post_process_docx_fst:
  "fst (post_process_docx E p w) =
     (case lib_Document E p (files w) of
        Inl e \<Rightarrow> if e = OSError \<or> e = ValueError then Inr () else Inl e
      | Inr doc \<Rightarrow>
          (case fst (lib_save E doc p (files w)) of
             Inl e \<Rightarrow> if e = OSError then Inr () else Inl e
           | Inr u \<Rightarrow> Inr ()))"
  by (simp add: post_process_docx_def Document_def save_def perform_def
      split: prod.splits sum.splits)

lemma post_process_docx_files:
  "files (snd (post_process_docx E p w)) =
     (case lib_Document E p (files w) of
        Inl e \<Rightarrow> files w
      | Inr doc \<Rightarrow> snd (lib_save E doc p (files w)))"
  by (simp add: post_process_docx_def Document_def save_def perform_def
      split: prod.splits sum.splits)

text \<open>
  Each library call is recorded once and changes the files as the library says.
\<close>

lemma Converter_result:
  "Converter E p w = (r, w1) \<Longrightarrow>
   lib_Converter E p (files w) = r \<and> files w1 = files w \<and> calls w1 = calls w @ [Call_Converter p]"
  by (auto simp: Converter_def perform_def)

lemma convert_result:
  "convert E cv out s e l w = (r, w1) \<Longrightarrow>
   lib_convert E cv out s e l (files w) = (r, files w1)
   \<and> calls w1 = calls w @ [Call_convert out s e l]"
  by (auto simp: convert_def perform_def split: prod.splits)

lemma close_result:
  "close E cv w = (r, w1) \<Longrightarrow>
   lib_close E cv (files w) = r \<and> files w1 = files w \<and> calls w1 = calls w @ [Call_close]"
  by (auto simp: close_def perform_def)

lemma open_rb_calls: "open_rb E p w = (r, w1) \<Longrightarrow> calls w1 = calls w @ [Call_open_rb p]"
  by (auto simp: open_rb_def perform_def split: prod.splits option.splits if_splits)

lemma prefix_calls:
  assumes "NamedTemporaryFile E ''.pdf'' w = (Inr pdf_path, w1)"
      and "file_write E pdf_path pdf_bytes w1 = (Inr (), w2)"
      and "file_flush E pdf_path w2 = (Inr (), w3)"
      and "mktemp E ''.docx'' w3 = (Inr out, w4)"
  shows "calls w4 = calls w @ [Call_NamedTemporaryFile ''.pdf'', Call_write pdf_path pdf_bytes,
                               Call_flush pdf_path, Call_mktemp ''.docx'']"
proof -
  from assms(1) have "calls w1 = calls w @ [Call_NamedTemporaryFile ''.pdf'']"
    by (auto simp: NamedTemporaryFile_def perform_def split: if_splits)
  moreover from assms(2) have "calls w2 = calls w1 @ [Call_write pdf_path pdf_bytes]"
    by (auto simp: file_write_def perform_def split: if_splits option.splits)
  moreover from assms(3) have "calls w3 = calls w2 @ [Call_flush pdf_path]"
    by (auto simp: file_flush_def perform_def split: if_splits)
  moreover from assms(4) have "calls w4 = calls w3 @ [Call_mktemp ''.docx'']"
    by (auto simp: mktemp_def perform_def split: if_splits)
  ultimately show ?thesis by simp
qed

text \<open>
  The files after the steps before the \<^verbatim>\<open>try\<close> block: the input bytes stand at the
  temporary name, and the output name is chosen in that file system.
\<close>

lemma prefix_files:
  assumes "NamedTemporaryFile E ''.pdf'' w = (Inr pdf_path, w1)"
      and "file_write E pdf_path pdf_bytes w1 = (Inr (), w2)"
      and "file_flush E pdf_path w2 = (Inr (), w3)"
      and "mktemp E ''.docx'' w3 = (Inr out, w4)"
  shows "pdf_path = tmp_name E ''.pdf'' (files w)"
    and "files w4 = (files w)(pdf_path \<mapsto> pdf_bytes)"
    and "out = tmp_name E ''.docx'' ((files w)(pdf_path \<mapsto> pdf_bytes))"
proof -
  from assms(1) have p: "pdf_path = tmp_name E ''.pdf'' (files w)"
    and f1: "files w1 = (files w)(pdf_path \<mapsto> [])"
    by (auto simp: NamedTemporaryFile_def perform_def split: if_splits)
  from assms(2) f1 have f2: "files w2 = (files w)(pdf_path \<mapsto> pdf_bytes)"
    by (auto simp: file_write_def perform_def split: if_splits)
  from assms(3) f2 have f3: "files w3 = (files w)(pdf_path \<mapsto> pdf_bytes)"
    by (auto simp: file_flush_def perform_def split: if_splits)
  from assms(4) f3 have o: "out = tmp_name E ''.docx'' ((files w)(pdf_path \<mapsto> pdf_bytes))"
    and f4: "files w4 = (files w)(pdf_path \<mapsto> pdf_bytes)"
    by (auto simp: mktemp_def perform_def split: if_splits)
  from p show "pdf_path = tmp_name E ''.pdf'' (files w)" .
  from f4 show "files w4 = (files w)(pdf_path \<mapsto> pdf_bytes)" .
  from o show "out = tmp_name E ''.docx'' ((files w)(pdf_path \<mapsto> pdf_bytes))" .
qed

text \<open>
  A successful conversion in terms of the libraries: which library call ran on which
  files, what the returned bytes are, and the calls in their order.
\<close>

lemma convert_success_dataflow:
  assumes "convert_pdf_bytes_to_docx E pdf_bytes w = (Inr (data, status), w')"
  obtains pdf_path out cv fs_c v c where
    "pdf_path = tmp_name E ''.pdf'' (files w)"
    "out = tmp_name E ''.docx'' ((files w)(pdf_path \<mapsto> pdf_bytes))"
    "lib_Converter E pdf_path ((files w)(pdf_path \<mapsto> pdf_bytes)) = Inr cv"
    "lib_convert E cv out 0 None True ((files w)(pdf_path \<mapsto> pdf_bytes)) = (Inr (), fs_c)"
    "lib_close E cv fs_c = Inr ()"
    "(case lib_Document E out fs_c of
        Inl e \<Rightarrow> fs_c
      | Inr doc \<Rightarrow> snd (lib_save E doc out fs_c)) out = Some data"
    "status = status_message"
    "calls w' = calls w
       @ [Call_NamedTemporaryFile ''.pdf'', Call_write pdf_path pdf_bytes,
          Call_flush pdf_path, Call_mktemp ''.docx'',
          Call_Converter pdf_path, Call_convert out 0 None True, Call_close,
          Call_Document out]
       @ v @ [Call_open_rb out] @ c"
    "v = [] \<or> v = [Call_save out]"
    "\<forall>x \<in> set c. x = Call_exists pdf_path \<or> x = Call_unlink pdf_path
                   \<or> x = Call_exists out \<or> x = Call_unlink out"
proof -
  from assms obtain pdf_path w1 w2 w3 out w4 cv w5 w6 w7 w8 w9 where ch:
    "NamedTemporaryFile E ''.pdf'' w = (Inr pdf_path, w1)"
    "file_write E pdf_path pdf_bytes w1 = (Inr (), w2)"
    "file_flush E pdf_path w2 = (Inr (), w3)"
    "mktemp E ''.docx'' w3 = (Inr out, w4)"
    "Converter E pdf_path w4 = (Inr cv, w5)"
    "convert E cv out 0 None True w5 = (Inr (), w6)"
    "close E cv w6 = (Inr (), w7)"
    "post_process_docx E out w7 = (Inr (), w8)"
    "open_rb E out w8 = (Inr data, w9)"
    and st: "status = status_message"
    and w': "w' = snd (finally_cleanup E [pdf_path, out] w9)"
    by (rule convert_success_chain)
  note pf = prefix_files [OF ch(1-4)]
  let ?fs = "(files w)(pdf_path \<mapsto> pdf_bytes)"
  from Converter_result [OF ch(5)] pf(2)
  have l5: "lib_Converter E pdf_path ?fs = Inr cv" and f5: "files w5 = ?fs"
    and c5: "calls w5 = calls w4 @ [Call_Converter pdf_path]"
    by simp_all
  from convert_result [OF ch(6)] f5
  have l6: "lib_convert E cv out 0 None True ?fs = (Inr (), files w6)"
    and c6: "calls w6 = calls w5 @ [Call_convert out 0 None True]"
    by simp_all
  from close_result [OF ch(7)]
  have l7: "lib_close E cv (files w6) = Inr ()" and f7: "files w7 = files w6"
    and c7: "calls w7 = calls w6 @ [Call_close]"
    by simp_all
  from ch(8) have "files w8 = files (snd (post_process_docx E out w7))" by simp
  then have "files w8 = (case lib_Document E out (files w7) of
        Inl e \<Rightarrow> files w7
      | Inr doc \<Rightarrow> snd (lib_save E doc out (files w7)))"
    by (simp only: post_process_docx_files)
  then have f8: "files w8 = (case lib_Document E out (files w6) of
        Inl e \<Rightarrow> files w6
      | Inr doc \<Rightarrow> snd (lib_save E doc out (files w6)))"
    unfolding f7 .
  from open_rb_content [OF ch(9)] f8
  have d: "(case lib_Document E out (files w6) of
        Inl e \<Rightarrow> files w6
      | Inr doc \<Rightarrow> snd (lib_save E doc out (files w6))) out = Some data"
    by simp
  have c4: "calls w4 = calls w @ [Call_NamedTemporaryFile ''.pdf'', Call_write pdf_path pdf_bytes,
                               Call_flush pdf_path, Call_mktemp ''.docx'']"
    using ch(1-4) by (rule prefix_calls)
  from post_process_docx_calls [of E out w7] ch(8) obtain v where
    c8: "calls w8 = calls w7 @ [Call_Document out] @ v" and v: "v = [] \<or> v = [Call_save out]"
    by auto
  from open_rb_calls [OF ch(9)] have c9: "calls w9 = calls w8 @ [Call_open_rb out]" .
  from finally_cleanup_calls [of E "[pdf_path, out]" w9] w' obtain c where
    c10: "calls w' = calls w9 @ c"
    and c: "\<forall>x\<in>set c. \<exists>p\<in>set [pdf_path, out]. x = Call_exists p \<or> x = Call_unlink p"
    by auto
  have all: "calls w' = calls w
       @ [Call_NamedTemporaryFile ''.pdf'', Call_write pdf_path pdf_bytes,
          Call_flush pdf_path, Call_mktemp ''.docx'',
          Call_Converter pdf_path, Call_convert out 0 None True, Call_close,
          Call_Document out]
       @ v @ [Call_open_rb out] @ c"
    by (simp add: c4 c5 c6 c7 c8 c9 c10)
  from c have c': "\<forall>x \<in> set c. x = Call_exists pdf_path \<or> x = Call_unlink pdf_path
                   \<or> x = Call_exists out \<or> x = Call_unlink out"
    by auto
  from pf(1) pf(3) l5 l6 l7 d st all v c' show thesis by (rule that)
qed

section \<open>Claims about the preview extractor\<close>

text \<open>
  C2. The specification says that \<^verbatim>\<open>docx_text_preview\<close> with \<^verbatim>\<open>max_paragraphs=0\<close>
  returns the empty string for every document. The loop tests the cap only after it has
  appended: on a document whose only paragraph is \<^verbatim>\<open>Hello\<close> the function returns
  \<^verbatim>\<open>Hello\<close> with cap 0.
\<close>

theorem preview_cap_zero_returns_first:
  "docx_text_preview (reader_of (doc_of_texts [''Hello''])) [] 0 = Inr ''Hello''"
  by (simp add: docx_text_preview_def reader_of_def doc_of_texts_def strip_def
      text_or_empty_def isspace_def newline_def)

text \<open>
  C3, as stated: the result has at most \<^verbatim>\<open>max_paragraphs\<close> newline-separated lines.
  A paragraph whose text holds a line break is kept as one entry: with cap 1 the document
  with the single paragraph \<^verbatim>\<open>a\nb\<close> gives a result of two lines.
\<close>

theorem preview_line_bound_counterexample:
  "docx_text_preview (reader_of (doc_of_texts [[CHR ''a'', CHR 0x0A, CHR ''b'']])) [] 1
     = Inr [CHR ''a'', CHR 0x0A, CHR ''b'']
   \<and> \<not> int (line_count [CHR ''a'', CHR 0x0A, CHR ''b'']) \<le> 1"
  by (simp add: docx_text_preview_def reader_of_def doc_of_texts_def strip_def
      text_or_empty_def isspace_def newline_def line_count_def)

text \<open>
  C3, amended: for every document and every positive \<^verbatim>\<open>max_paragraphs\<close>, the result is
  the newline-join of the document's kept paragraph texts (its paragraph texts in order,
  trimmed, the empty ones dropped, cut at \<^verbatim>\<open>max_paragraphs\<close>), of which there are at most
  \<^verbatim>\<open>max_paragraphs\<close>; when none of these kept texts holds a line feed, the result has at
  most \<^verbatim>\<open>max_paragraphs\<close> newline-separated lines.
\<close>

theorem preview_line_bound:
  assumes "0 < max_paragraphs"
      and "Document_BytesIO docx_bytes = Inr doc"
  shows "docx_text_preview Document_BytesIO docx_bytes max_paragraphs
           = Inr (join newline (kept_paragraphs (paragraphs doc) max_paragraphs))
         \<and> int (length (kept_paragraphs (paragraphs doc) max_paragraphs)) \<le> max_paragraphs
         \<and> ((\<forall>t \<in> set (kept_paragraphs (paragraphs doc) max_paragraphs). CHR 0x0A \<notin> set t)
              \<longrightarrow> (\<forall>r. docx_text_preview Document_BytesIO docx_bytes max_paragraphs = Inr r
                       \<longrightarrow> int (line_count r) \<le> max_paragraphs))"
proof -
  let ?k = "kept_paragraphs (paragraphs doc) max_paragraphs"
  from assms(1) have "preview_loop (paragraphs doc) max_paragraphs [] = ?k"
    by (simp add: preview_loop_take kept_paragraphs_def)
  with assms(2) have a: "docx_text_preview Document_BytesIO docx_bytes max_paragraphs
           = Inr (join newline ?k)"
    by (simp add: docx_text_preview_def)
  from assms(1) have b: "int (length ?k) \<le> max_paragraphs"
    by (simp add: kept_paragraphs_def)
  have c: "(\<forall>t \<in> set ?k. CHR 0x0A \<notin> set t)
              \<longrightarrow> (\<forall>r. docx_text_preview Document_BytesIO docx_bytes max_paragraphs = Inr r
                       \<longrightarrow> int (line_count r) \<le> max_paragraphs)"
  proof (intro impI allI)
    fix r
    assume nl: "\<forall>t \<in> set ?k. CHR 0x0A \<notin> set t"
      and r: "docx_text_preview Document_BytesIO docx_bytes max_paragraphs = Inr r"
    from nl have "line_count (join newline ?k) \<le> length ?k" by (rule line_count_join)
    with b have "int (line_count (join newline ?k)) \<le> max_paragraphs" by linarith
    with a r show "int (line_count r) \<le> max_paragraphs" by simp
  qed
  from a b c show ?thesis by (intro conjI)
qed

theorem preview_line_bound_witness:
  "(0::int) < 2
   \<and> docx_text_preview (reader_of (doc_of_texts [''a'', '' '', ''b'', ''c''])) [] 2
       = Inr [CHR ''a'', CHR 0x0A, CHR ''b'']
   \<and> int (line_count [CHR ''a'', CHR 0x0A, CHR ''b'']) \<le> 2"
proof -
  have r: "reader_of (doc_of_texts [''a'', '' '', ''b'', ''c'']) []
             = Inr (doc_of_texts [''a'', '' '', ''b'', ''c''])"
    by (simp add: reader_of_def)
  have k: "kept_paragraphs (paragraphs (doc_of_texts [''a'', '' '', ''b'', ''c''])) 2
             = [''a'', ''b'']"
    by (simp add: kept_paragraphs_def doc_of_texts_def strip_def text_or_empty_def isspace_def)
  have pos: "(0::int) < 2" by simp
  note t = preview_line_bound
         [of 2 "reader_of (doc_of_texts [''a'', '' '', ''b'', ''c''])" "[]"
             "doc_of_texts [''a'', '' '', ''b'', ''c'']", OF pos r, unfolded k]
  from t have e: "docx_text_preview (reader_of (doc_of_texts [''a'', '' '', ''b'', ''c''])) [] 2
       = Inr [CHR ''a'', CHR 0x0A, CHR ''b'']"
    by (simp add: newline_def)
  from t have "(\<forall>t \<in> set [''a'', ''b'']. CHR 0x0A \<notin> set t)
              \<longrightarrow> (\<forall>r. docx_text_preview (reader_of (doc_of_texts [''a'', '' '', ''b'', ''c''])) [] 2
                         = Inr r \<longrightarrow> int (line_count r) \<le> 2)"
    by (elim conjE)
  moreover have "\<forall>t \<in> set [''a'', ''b'']. CHR 0x0A \<notin> set t" by simp
  ultimately have "int (line_count [CHR ''a'', CHR 0x0A, CHR ''b'']) \<le> 2"
    using e by blast
  with e show ?thesis by simp
qed

text \<open>
  C5. For every document and positive cap, the preview is the newline-join of the
  paragraphs taken in order, trimmed, the empty ones skipped, cut at the cap; every kept
  entry is non-empty and comes from a paragraph whose text was not whitespace only, and
  the kept entries are a subsequence of the trimmed paragraph texts.
\<close>

theorem preview_filters_in_order:
  assumes "0 < max_paragraphs"
      and "Document_BytesIO docx_bytes = Inr doc"
  shows "docx_text_preview Document_BytesIO docx_bytes max_paragraphs
           = Inr (join newline (kept_paragraphs (paragraphs doc) max_paragraphs))
         \<and> int (length (kept_paragraphs (paragraphs doc) max_paragraphs)) \<le> max_paragraphs
         \<and> (\<forall>t \<in> set (kept_paragraphs (paragraphs doc) max_paragraphs).
               t \<noteq> [] \<and>
               (\<exists>p \<in> set (paragraphs doc).
                  t = strip (text_or_empty p) \<and> \<not> (\<forall>c \<in> set (text_or_empty p). isspace c)))
         \<and> subseq (kept_paragraphs (paragraphs doc) max_paragraphs)
                   (map (\<lambda>p. strip (text_or_empty p)) (paragraphs doc))"
proof -
  let ?ps = "paragraphs doc"
  let ?k = "kept_paragraphs ?ps max_paragraphs"
  from assms(1) have "preview_loop ?ps max_paragraphs [] = ?k"
    by (simp add: preview_loop_take kept_paragraphs_def)
  with assms(2) have a: "docx_text_preview Document_BytesIO docx_bytes max_paragraphs
           = Inr (join newline ?k)"
    by (simp add: docx_text_preview_def)
  from assms(1) have b: "int (length ?k) \<le> max_paragraphs"
    by (simp add: kept_paragraphs_def)
  have c: "\<forall>t \<in> set ?k. t \<noteq> [] \<and>
               (\<exists>p \<in> set ?ps.
                  t = strip (text_or_empty p) \<and> \<not> (\<forall>c \<in> set (text_or_empty p). isspace c))"
  proof
    fix t assume "t \<in> set ?k"
    then have "t \<in> set (filter (\<lambda>t. t \<noteq> []) (map (\<lambda>p. strip (text_or_empty p)) ?ps))"
      unfolding kept_paragraphs_def by (rule in_set_takeD)
    then obtain p where p: "p \<in> set ?ps" "t = strip (text_or_empty p)" and ne: "t \<noteq> []"
      by auto
    from ne p(2) have "\<not> (\<forall>c \<in> set (text_or_empty p). isspace c)"
      using strip_empty_iff [of "text_or_empty p"] by simp
    with p ne show "t \<noteq> [] \<and>
               (\<exists>p \<in> set ?ps.
                  t = strip (text_or_empty p) \<and> \<not> (\<forall>c \<in> set (text_or_empty p). isspace c))"
      by blast
  qed
  from a b c kept_subseq [of ?ps max_paragraphs] show ?thesis by blast
qed

theorem preview_filters_in_order_witness:
  "(0::int) < 2
   \<and> docx_text_preview (reader_of (doc_of_texts ['' '', '' x'', '''', ''y '', ''z''])) [] 2
       = Inr [CHR ''x'', CHR 0x0A, CHR ''y'']
   \<and> kept_paragraphs (paragraphs (doc_of_texts ['' '', '' x'', '''', ''y '', ''z''])) 2
       = [''x'', ''y'']"
proof -
  have k: "kept_paragraphs (paragraphs (doc_of_texts ['' '', '' x'', '''', ''y '', ''z''])) 2
       = [''x'', ''y'']"
    by (simp add: kept_paragraphs_def doc_of_texts_def strip_def text_or_empty_def isspace_def)
  have r: "reader_of (doc_of_texts ['' '', '' x'', '''', ''y '', ''z'']) []
             = Inr (doc_of_texts ['' '', '' x'', '''', ''y '', ''z''])"
    by (simp add: reader_of_def)
  from preview_filters_in_order
         [of 2 "reader_of (doc_of_texts ['' '', '' x'', '''', ''y '', ''z''])" "[]"
             "doc_of_texts ['' '', '' x'', '''', ''y '', ''z'']"] r k
  show ?thesis
    by (simp add: newline_def)
qed

text \<open>
  C6. The paragraphs \<^verbatim>\<open>["", "  ", "Hello", "World"]\<close> with cap 1 give \<^verbatim>\<open>Hello\<close>, and
  the paragraphs \<^verbatim>\<open>["A", "B", "C"]\<close> with cap 5 give \<^verbatim>\<open>A\nB\nC\<close>.
\<close>

theorem preview_examples:
  "(Document_BytesIO b1 = Inr (doc_of_texts ['''', ''  '', ''Hello'', ''World''])
      \<longrightarrow> docx_text_preview Document_BytesIO b1 1 = Inr ''Hello'')
   \<and> (Document_BytesIO' b2 = Inr (doc_of_texts [''A'', ''B'', ''C''])
      \<longrightarrow> docx_text_preview Document_BytesIO' b2 5
            = Inr [CHR ''A'', CHR 0x0A, CHR ''B'', CHR 0x0A, CHR ''C''])"
  by (simp add: docx_text_preview_def doc_of_texts_def strip_def text_or_empty_def
      isspace_def newline_def)

theorem preview_examples_witness:
  "docx_text_preview (reader_of (doc_of_texts ['''', ''  '', ''Hello'', ''World''])) [] 1
     = Inr ''Hello''
   \<and> docx_text_preview (reader_of (doc_of_texts [''A'', ''B'', ''C''])) [] 5
     = Inr [CHR ''A'', CHR 0x0A, CHR ''B'', CHR 0x0A, CHR ''C'']"
  using preview_examples [of "reader_of (doc_of_texts ['''', ''  '', ''Hello'', ''World''])" "[]"
                             "reader_of (doc_of_texts [''A'', ''B'', ''C''])" "[]"]
  by (simp add: reader_of_def)

text \<open>
  C10. For every document and every \<^verbatim>\<open>max_paragraphs\<close> at most 0, only the first
  paragraph is looked at: the result is its trimmed text when that is non-empty, and the
  empty string otherwise, also for a document without paragraphs.
\<close>

theorem preview_nonpositive_cap:
  assumes "max_paragraphs \<le> 0"
      and "Document_BytesIO docx_bytes = Inr doc"
  shows "docx_text_preview Document_BytesIO docx_bytes max_paragraphs =
           Inr (case paragraphs doc of
                  [] \<Rightarrow> []
                | p # rest \<Rightarrow> (if strip (text_or_empty p) \<noteq> [] then strip (text_or_empty p)
                               else []))"
  using assms
  by (simp add: docx_text_preview_def preview_loop_nonpos split: list.splits)

theorem preview_nonpositive_cap_witness:
  "(-3::int) \<le> 0
   \<and> docx_text_preview (reader_of (doc_of_texts [''  Hi '', ''World''])) [] (-3) = Inr ''Hi''
   \<and> docx_text_preview (reader_of (doc_of_texts ['' '', ''World''])) [] 0 = Inr []
   \<and> docx_text_preview (reader_of (doc_of_texts [])) [] 0 = Inr []"
  using preview_nonpositive_cap [of "-3" "reader_of (doc_of_texts [''  Hi '', ''World''])" "[]"
          "doc_of_texts [''  Hi '', ''World'']"]
        preview_nonpositive_cap [of 0 "reader_of (doc_of_texts ['' '', ''World''])" "[]"
          "doc_of_texts ['' '', ''World'']"]
        preview_nonpositive_cap [of 0 "reader_of (doc_of_texts [])" "[]" "doc_of_texts []"]
  by (simp add: reader_of_def doc_of_texts_def strip_def text_or_empty_def isspace_def)

section \<open>Claims about the conversion pipeline\<close>

text \<open>
  C1, as stated: the validation pass returns silently when opening or re-saving raises an
  I/O or value error. The \<^verbatim>\<open>except\<close> clause around \<^verbatim>\<open>doc.save\<close> names \<^verbatim>\<open>OSError\<close>
  only: when the document opens and \<^verbatim>\<open>save\<close> raises \<^verbatim>\<open>ValueError\<close>, the error leaves
  \<^verbatim>\<open>_post_process_docx\<close> and the whole conversion.
\<close>

theorem post_process_docx_counterexample:
  "lib_Document env_save_ValueError ''/tmp/out.docx'' (files docx_world)
     = Inr (doc_of_texts [''Hello''])
   \<and> fst (lib_save env_save_ValueError (doc_of_texts [''Hello'']) ''/tmp/out.docx''
            (files docx_world)) = Inl ValueError
   \<and> fst (post_process_docx env_save_ValueError ''/tmp/out.docx'' docx_world) = Inl ValueError
   \<and> fst (convert_pdf_bytes_to_docx env_save_ValueError pdf_magic empty_world) = Inl ValueError"
  by (simp add: env_defs env_save_ValueError_def docx_world_def op_defs)

text \<open>
  C1, amended: \<^verbatim>\<open>_post_process_docx\<close> returns silently when opening the document raises
  \<^verbatim>\<open>OSError\<close> or \<^verbatim>\<open>ValueError\<close>, and the files are then untouched; it returns silently when
  re-saving raises \<^verbatim>\<open>OSError\<close>, and the files are then as the failed save left them; every
  other exception, a \<^verbatim>\<open>ValueError\<close> of the save among them, propagates.
\<close>

theorem post_process_docx_suppression:
  "(lib_Document E p (files w) = Inl e \<longrightarrow>
      fst (post_process_docx E p w) = (if e = OSError \<or> e = ValueError then Inr () else Inl e)
      \<and> files (snd (post_process_docx E p w)) = files w)
   \<and> (lib_Document E p (files w) = Inr doc \<and> lib_save E doc p (files w) = (Inl e', fs') \<longrightarrow>
      fst (post_process_docx E p w) = (if e' = OSError then Inr () else Inl e')
      \<and> files (snd (post_process_docx E p w)) = fs')
   \<and> (lib_Document E p (files w) = Inr doc \<and> lib_save E doc p (files w) = (Inr (), fs'') \<longrightarrow>
      fst (post_process_docx E p w) = Inr ()
      \<and> files (snd (post_process_docx E p w)) = fs'')"
  by (simp add: post_process_docx_fst post_process_docx_files)

theorem post_process_docx_suppression_witness:
  "fst (post_process_docx env_open_ValueError ''/tmp/out.docx'' docx_world) = Inr ()
   \<and> files (snd (post_process_docx env_open_ValueError ''/tmp/out.docx'' docx_world))
       = files docx_world
   \<and> fst (post_process_docx env_open_PackageNotFound ''/tmp/out.docx'' docx_world)
       = Inl (OtherError ''PackageNotFoundError'')
   \<and> fst (post_process_docx env_save_OSError ''/tmp/out.docx'' docx_world) = Inr ()
   \<and> files (snd (post_process_docx env_save_OSError ''/tmp/out.docx'' docx_world))
       = files docx_world
   \<and> fst (post_process_docx demo_env ''/tmp/out.docx'' docx_world) = Inr ()
   \<and> files (snd (post_process_docx demo_env ''/tmp/out.docx'' docx_world)) ''/tmp/out.docx''
       = Some zip_magic"
proof -
  have a: "lib_Document env_open_ValueError ''/tmp/out.docx'' (files docx_world) = Inl ValueError"
    by (simp add: env_defs env_save_OSError_def env_open_ValueError_def
        env_open_PackageNotFound_def docx_world_def)
  have b: "lib_Document env_open_PackageNotFound ''/tmp/out.docx'' (files docx_world)
             = Inl (OtherError ''PackageNotFoundError'')"
    by (simp add: env_defs env_save_OSError_def env_open_ValueError_def
        env_open_PackageNotFound_def docx_world_def)
  have c: "lib_Document env_save_OSError ''/tmp/out.docx'' (files docx_world)
             = Inr (doc_of_texts [''Hello''])
           \<and> lib_save env_save_OSError (doc_of_texts [''Hello'']) ''/tmp/out.docx''
                (files docx_world) = (Inl OSError, files docx_world)"
    by (simp add: env_defs env_save_OSError_def env_open_ValueError_def
        env_open_PackageNotFound_def docx_world_def)
  have d: "lib_Document demo_env ''/tmp/out.docx'' (files docx_world)
             = Inr (doc_of_texts [''Hello''])
           \<and> lib_save demo_env (doc_of_texts [''Hello'']) ''/tmp/out.docx'' (files docx_world)
                = (Inr (), (files docx_world)(''/tmp/out.docx'' \<mapsto> zip_magic))"
    by (simp add: env_defs env_save_OSError_def env_open_ValueError_def
        env_open_PackageNotFound_def docx_world_def)
  note t = post_process_docx_suppression
  from t [of env_open_ValueError "''/tmp/out.docx''" docx_world ValueError] a
  have 1: "fst (post_process_docx env_open_ValueError ''/tmp/out.docx'' docx_world) = Inr ()
     \<and> files (snd (post_process_docx env_open_ValueError ''/tmp/out.docx'' docx_world))
       = files docx_world"
    by simp
  from t [of env_open_PackageNotFound "''/tmp/out.docx''" docx_world
            "OtherError ''PackageNotFoundError''"] b
  have 2: "fst (post_process_docx env_open_PackageNotFound ''/tmp/out.docx'' docx_world)
       = Inl (OtherError ''PackageNotFoundError'')"
    by simp
  from t [of env_save_OSError "''/tmp/out.docx''" docx_world _ "doc_of_texts [''Hello'']"
            OSError "files docx_world"] c
  have 3: "fst (post_process_docx env_save_OSError ''/tmp/out.docx'' docx_world) = Inr ()
   \<and> files (snd (post_process_docx env_save_OSError ''/tmp/out.docx'' docx_world))
       = files docx_world"
    by simp
  from t [of demo_env "''/tmp/out.docx''" docx_world _ "doc_of_texts [''Hello'']" _ _
            "(files docx_world)(''/tmp/out.docx'' \<mapsto> zip_magic)"] d
  have 4: "fst (post_process_docx demo_env ''/tmp/out.docx'' docx_world) = Inr ()
   \<and> files (snd (post_process_docx demo_env ''/tmp/out.docx'' docx_world)) ''/tmp/out.docx''
       = Some zip_magic"
    by simp
  from 1 2 3 4 show ?thesis by blast
qed

text \<open>
  C4, as stated: after the call neither temporary file exists, on every exit path. The
  cleanup swallows the \<^verbatim>\<open>OSError\<close> of a refused \<^verbatim>\<open>os.unlink\<close>: where the operating
  system refuses to remove the files, the call returns its result and both files remain.
\<close>

theorem temp_files_counterexample:
  "fst (NamedTemporaryFile env_unlink_refused ''.pdf'' empty_world) = Inr ''/tmp/tmp0.pdf''
   \<and> fst (convert_pdf_bytes_to_docx env_unlink_refused pdf_magic empty_world)
       = Inr (zip_magic, status_message)
   \<and> files (snd (convert_pdf_bytes_to_docx env_unlink_refused pdf_magic empty_world))
        ''/tmp/tmp0.pdf'' = Some pdf_magic
   \<and> files (snd (convert_pdf_bytes_to_docx env_unlink_refused pdf_magic empty_world))
        ''/tmp/tmp0.docx'' = Some zip_magic"
  by (simp add: env_defs env_unlink_refused_def op_defs)

text \<open>
  C4, amended: once the input has been written to its temporary file and the output
  name chosen, then on every exit path of the \<^verbatim>\<open>try\<close> block (success, converter failure,
  validation failure) each of the two temporary paths whose removal the operating system
  does not refuse is absent after the call; and the cleanup never raises, whatever files
  are missing.
\<close>

theorem temp_files_removed:
  assumes "NamedTemporaryFile E ''.pdf'' w = (Inr pdf_path, w1)"
      and "file_write E pdf_path pdf_bytes w1 = (Inr (), w2)"
      and "file_flush E pdf_path w2 = (Inr (), w3)"
      and "mktemp E ''.docx'' w3 = (Inr out_docx_path, w4)"
      and "p = pdf_path \<or> p = out_docx_path"
      and "p \<noteq> []"
      and "\<forall>fs. \<not> os_fails E (Call_unlink p) fs"
  shows "files (snd (convert_pdf_bytes_to_docx E pdf_bytes w)) p = None
         \<and> (\<forall>ps w'. fst (finally_cleanup E ps w') = Inr ())"
proof -
  from assms(5) have "p \<in> set [pdf_path, out_docx_path]" by auto
  then have "files (snd (finally_cleanup E [pdf_path, out_docx_path]
                 (snd (convert_body E pdf_path out_docx_path w4)))) p = None"
    using assms(6,7) by (rule finally_cleanup_removes)
  then have "files (snd (convert_pdf_bytes_to_docx E pdf_bytes w)) p = None"
    by (simp only: convert_after_prefix [OF assms(1-4)] snd_conv)
  then show ?thesis by (simp only: finally_cleanup_returns) simp
qed

theorem temp_files_removed_witness:
  "files (snd (convert_pdf_bytes_to_docx demo_env pdf_magic empty_world)) ''/tmp/tmp0.pdf'' = None
   \<and> files (snd (convert_pdf_bytes_to_docx demo_env pdf_magic empty_world)) ''/tmp/tmp0.docx''
       = None
   \<and> files (snd (convert_pdf_bytes_to_docx demo_env [] empty_world)) ''/tmp/tmp0.pdf'' = None
   \<and> fst (convert_pdf_bytes_to_docx demo_env [] empty_world) = Inl (OtherError ''FileDataError'')"
proof -
  define wa where "wa = \<lparr>files = (\<lambda>p. None)(''/tmp/tmp0.pdf'' \<mapsto> ([] :: bytes)),
                         calls = [Call_NamedTemporaryFile ''.pdf'']\<rparr>"
  define wb where "wb b = \<lparr>files = (\<lambda>p. None)(''/tmp/tmp0.pdf'' \<mapsto> (b :: bytes)),
                         calls = [Call_NamedTemporaryFile ''.pdf'', Call_write ''/tmp/tmp0.pdf'' b]\<rparr>"
    for b
  define wc where "wc b = \<lparr>files = (\<lambda>p. None)(''/tmp/tmp0.pdf'' \<mapsto> (b :: bytes)),
                         calls = [Call_NamedTemporaryFile ''.pdf'', Call_write ''/tmp/tmp0.pdf'' b,
                                  Call_flush ''/tmp/tmp0.pdf'']\<rparr>"
    for b
  define wd where "wd b = \<lparr>files = (\<lambda>p. None)(''/tmp/tmp0.pdf'' \<mapsto> (b :: bytes)),
                         calls = [Call_NamedTemporaryFile ''.pdf'', Call_write ''/tmp/tmp0.pdf'' b,
                                  Call_flush ''/tmp/tmp0.pdf'', Call_mktemp ''.docx'']\<rparr>"
    for b
  have s1: "NamedTemporaryFile demo_env ''.pdf'' empty_world = (Inr ''/tmp/tmp0.pdf'', wa)"
    by (simp add: wa_def env_defs NamedTemporaryFile_def perform_def)
  have s2: "file_write demo_env ''/tmp/tmp0.pdf'' b wa = (Inr (), wb b)" for b
    by (simp add: wa_def wb_def env_defs file_write_def perform_def)
  have s3: "file_flush demo_env ''/tmp/tmp0.pdf'' (wb b) = (Inr (), wc b)" for b
    by (simp add: wb_def wc_def env_defs file_flush_def perform_def)
  have s4: "mktemp demo_env ''.docx'' (wc b) = (Inr ''/tmp/tmp0.docx'', wd b)" for b
    by (simp add: wc_def wd_def env_defs mktemp_def perform_def)
  have nf: "\<forall>fs. \<not> os_fails demo_env (Call_unlink q) fs" for q
    by (simp add: env_defs)
  have 1: "files (snd (convert_pdf_bytes_to_docx demo_env pdf_magic empty_world))
             ''/tmp/tmp0.pdf'' = None"
    using temp_files_removed [OF s1 s2 s3 s4, of "''/tmp/tmp0.pdf''" pdf_magic] nf by simp
  have 2: "files (snd (convert_pdf_bytes_to_docx demo_env pdf_magic empty_world))
             ''/tmp/tmp0.docx'' = None"
    using temp_files_removed [OF s1 s2 s3 s4, of "''/tmp/tmp0.docx''" pdf_magic] nf by simp
  have 3: "files (snd (convert_pdf_bytes_to_docx demo_env [] empty_world))
             ''/tmp/tmp0.pdf'' = None"
    using temp_files_removed [OF s1 s2 s3 s4, of "''/tmp/tmp0.pdf''" "[]"] nf by simp
  have 4: "fst (convert_pdf_bytes_to_docx demo_env [] empty_world)
             = Inl (OtherError ''FileDataError'')"
    by (simp add: env_defs op_defs)
  from 1 2 3 4 show ?thesis by blast
qed




text \<open>
  C8. A successful call has gone through these steps in this order: the input bytes are
  persisted to the temporary file; the converter is opened on that file and \<^verbatim>\<open>convert\<close>
  runs there with start 0, no end and the layout option, writing to the output name; the
  validation pass opens the produced document and, when it opened, re-saves it; only then
  is the output file read, and its full contents are the bytes returned. The recorded calls
  stand in this order, the cleanup calls last.
\<close>

theorem convert_step_order:
  assumes "convert_pdf_bytes_to_docx E pdf_bytes w = (Inr (data, status), w')"
  shows "\<exists>pdf_path out_docx_path cv fs_c v c.
           pdf_path = tmp_name E ''.pdf'' (files w)
         \<and> out_docx_path = tmp_name E ''.docx'' ((files w)(pdf_path \<mapsto> pdf_bytes))
         \<and> lib_Converter E pdf_path ((files w)(pdf_path \<mapsto> pdf_bytes)) = Inr cv
         \<and> lib_convert E cv out_docx_path 0 None True ((files w)(pdf_path \<mapsto> pdf_bytes))
             = (Inr (), fs_c)
         \<and> lib_close E cv fs_c = Inr ()
         \<and> (case lib_Document E out_docx_path fs_c of
               Inl e \<Rightarrow> fs_c
             | Inr doc \<Rightarrow> snd (lib_save E doc out_docx_path fs_c)) out_docx_path = Some data
         \<and> calls w' = calls w
             @ [Call_NamedTemporaryFile ''.pdf'', Call_write pdf_path pdf_bytes,
                Call_flush pdf_path, Call_mktemp ''.docx'',
                Call_Converter pdf_path, Call_convert out_docx_path 0 None True, Call_close,
                Call_Document out_docx_path]
             @ v @ [Call_open_rb out_docx_path] @ c
         \<and> (v = [] \<or> v = [Call_save out_docx_path])
         \<and> (\<forall>x \<in> set c. x = Call_exists pdf_path \<or> x = Call_unlink pdf_path
                          \<or> x = Call_exists out_docx_path \<or> x = Call_unlink out_docx_path)"
proof -
  from assms obtain pdf_path out cv fs_c v c where
    "pdf_path = tmp_name E ''.pdf'' (files w)"
    "out = tmp_name E ''.docx'' ((files w)(pdf_path \<mapsto> pdf_bytes))"
    "lib_Converter E pdf_path ((files w)(pdf_path \<mapsto> pdf_bytes)) = Inr cv"
    "lib_convert E cv out 0 None True ((files w)(pdf_path \<mapsto> pdf_bytes)) = (Inr (), fs_c)"
    "lib_close E cv fs_c = Inr ()"
    "(case lib_Document E out fs_c of
        Inl e \<Rightarrow> fs_c
      | Inr doc \<Rightarrow> snd (lib_save E doc out fs_c)) out = Some data"
    "status = status_message"
    "calls w' = calls w
       @ [Call_NamedTemporaryFile ''.pdf'', Call_write pdf_path pdf_bytes,
          Call_flush pdf_path, Call_mktemp ''.docx'',
          Call_Converter pdf_path, Call_convert out 0 None True, Call_close,
          Call_Document out]
       @ v @ [Call_open_rb out] @ c"
    "v = [] \<or> v = [Call_save out]"
    "\<forall>x \<in> set c. x = Call_exists pdf_path \<or> x = Call_unlink pdf_path
                   \<or> x = Call_exists out \<or> x = Call_unlink out"
    by (rule convert_success_dataflow)
  then show ?thesis by (intro exI conjI)
qed

theorem convert_step_order_witness:
  "calls (snd (convert_pdf_bytes_to_docx demo_env pdf_magic empty_world))
     = [Call_NamedTemporaryFile ''.pdf'', Call_write ''/tmp/tmp0.pdf'' pdf_magic,
        Call_flush ''/tmp/tmp0.pdf'', Call_mktemp ''.docx'',
        Call_Converter ''/tmp/tmp0.pdf'', Call_convert ''/tmp/tmp0.docx'' 0 None True,
        Call_close, Call_Document ''/tmp/tmp0.docx'', Call_save ''/tmp/tmp0.docx'',
        Call_open_rb ''/tmp/tmp0.docx'', Call_exists ''/tmp/tmp0.pdf'',
        Call_unlink ''/tmp/tmp0.pdf'', Call_exists ''/tmp/tmp0.docx'',
        Call_unlink ''/tmp/tmp0.docx'']
   \<and> fst (convert_pdf_bytes_to_docx demo_env pdf_magic empty_world)
       = Inr (zip_magic, status_message)"
proof -
  let ?r = "convert_pdf_bytes_to_docx demo_env pdf_magic empty_world"
  have ev: "fst ?r = Inr (zip_magic, status_message)"
    by (simp add: env_defs op_defs)
  then have run: "?r = (Inr (zip_magic, status_message), snd ?r)"
    by (cases ?r) simp
  from convert_step_order [OF run] obtain pdf_path out_docx_path v c where
    "pdf_path = tmp_name demo_env ''.pdf'' (files empty_world)"
    "calls (snd ?r) = calls empty_world
             @ [Call_NamedTemporaryFile ''.pdf'', Call_write pdf_path pdf_magic,
                Call_flush pdf_path, Call_mktemp ''.docx'',
                Call_Converter pdf_path, Call_convert out_docx_path 0 None True, Call_close,
                Call_Document out_docx_path]
             @ v @ [Call_open_rb out_docx_path] @ c"
    by blast
  then have "take 4 (calls (snd ?r)) =
      [Call_NamedTemporaryFile ''.pdf'', Call_write ''/tmp/tmp0.pdf'' pdf_magic,
                Call_flush ''/tmp/tmp0.pdf'', Call_mktemp ''.docx'']"
    by (simp add: env_defs)
  moreover have "calls (snd ?r)
     = [Call_NamedTemporaryFile ''.pdf'', Call_write ''/tmp/tmp0.pdf'' pdf_magic,
        Call_flush ''/tmp/tmp0.pdf'', Call_mktemp ''.docx'',
        Call_Converter ''/tmp/tmp0.pdf'', Call_convert ''/tmp/tmp0.docx'' 0 None True,
        Call_close, Call_Document ''/tmp/tmp0.docx'', Call_save ''/tmp/tmp0.docx'',
        Call_open_rb ''/tmp/tmp0.docx'', Call_exists ''/tmp/tmp0.pdf'',
        Call_unlink ''/tmp/tmp0.pdf'', Call_exists ''/tmp/tmp0.docx'',
        Call_unlink ''/tmp/tmp0.docx'']"
    by (simp add: env_defs op_defs)
  ultimately show ?thesis using ev by simp
qed

text \<open>
  C9. When the external converter raises \<open>e\<close> on the input (in \<^verbatim>\<open>Converter\<close> or in
  \<^verbatim>\<open>convert\<close>), the call never returns a (bytes, status) result; and when the operating
  system refuses nothing, the call raises exactly \<open>e\<close>.
\<close>

theorem converter_error_propagates:
  assumes "converter_rejects E pdf_bytes e"
  shows "(\<forall>r. fst (convert_pdf_bytes_to_docx E pdf_bytes w) \<noteq> Inr r)
         \<and> ((\<forall>c fs. \<not> os_fails E c fs)
              \<longrightarrow> fst (convert_pdf_bytes_to_docx E pdf_bytes w) = Inl e)"
proof (intro conjI allI impI)
  fix r
  show "fst (convert_pdf_bytes_to_docx E pdf_bytes w) \<noteq> Inr r"
  proof
    assume "fst (convert_pdf_bytes_to_docx E pdf_bytes w) = Inr r"
    then obtain data status w' where
      ok: "convert_pdf_bytes_to_docx E pdf_bytes w = (Inr (data, status), w')"
      by (cases "convert_pdf_bytes_to_docx E pdf_bytes w"; cases r) simp
    from ok obtain pdf_path w1 w2 w3 out w4 cv w5 w6 where ch:
      "NamedTemporaryFile E ''.pdf'' w = (Inr pdf_path, w1)"
      "file_write E pdf_path pdf_bytes w1 = (Inr (), w2)"
      "file_flush E pdf_path w2 = (Inr (), w3)"
      "mktemp E ''.docx'' w3 = (Inr out, w4)"
      "Converter E pdf_path w4 = (Inr cv, w5)"
      "convert E cv out 0 None True w5 = (Inr (), w6)"
      by (rule convert_success_chain)
    from ch(1-4) have held: "files w4 pdf_path = Some pdf_bytes" by (rule prefix_persists)
    from Converter_result [OF ch(5)]
    have cv: "lib_Converter E pdf_path (files w4) = Inr cv" and f5: "files w5 = files w4"
      by simp_all
    from convert_result [OF ch(6)] f5
    have co: "fst (lib_convert E cv out 0 None True (files w4)) = Inr ()"
      by simp
    from assms held have "lib_Converter E pdf_path (files w4) = Inl e
        \<or> (\<exists>cv. lib_Converter E pdf_path (files w4) = Inr cv
              \<and> (\<forall>out. fst (lib_convert E cv out 0 None True (files w4)) = Inl e))"
      unfolding converter_rejects_def
      by (elim allE [where x = pdf_path] allE [where x = "files w4"] impE)
    with cv have "fst (lib_convert E cv out 0 None True (files w4)) = Inl e" by auto
    with co show False by simp
  qed
next
  assume nf: "\<forall>c fs. \<not> os_fails E c fs"
  from nf obtain pdf_path w1 w2 w3 out w4 where pre:
    "NamedTemporaryFile E ''.pdf'' w = (Inr pdf_path, w1)"
    "file_write E pdf_path pdf_bytes w1 = (Inr (), w2)"
    "file_flush E pdf_path w2 = (Inr (), w3)"
    "mktemp E ''.docx'' w3 = (Inr out, w4)"
    by (rule prefix_runs)
  from pre have held: "files w4 pdf_path = Some pdf_bytes" by (rule prefix_persists)
  from assms held have rej: "lib_Converter E pdf_path (files w4) = Inl e
        \<or> (\<exists>cv. lib_Converter E pdf_path (files w4) = Inr cv
              \<and> (\<forall>out. fst (lib_convert E cv out 0 None True (files w4)) = Inl e))"
    unfolding converter_rejects_def
    by (elim allE [where x = pdf_path] allE [where x = "files w4"] impE)
  have "fst (convert_body E pdf_path out w4) = Inl e"
  proof (cases "lib_Converter E pdf_path (files w4)")
    case (Inl e')
    with rej have "e' = e" by auto
    with Inl show ?thesis
      by (simp add: convert_body_def and_then_def Converter_def perform_def)
  next
    case (Inr cv)
    with rej have "fst (lib_convert E cv out 0 None True (files w4)) = Inl e" by auto
    then obtain fs2 where "lib_convert E cv out 0 None True (files w4) = (Inl e, fs2)"
      by (cases "lib_convert E cv out 0 None True (files w4)") simp
    with Inr show ?thesis
      by (simp add: convert_body_def and_then_def Converter_def convert_def perform_def)
  qed
  then show "fst (convert_pdf_bytes_to_docx E pdf_bytes w) = Inl e"
    by (simp add: convert_after_prefix [OF pre])
qed

theorem converter_error_propagates_witness:
  "fst (convert_pdf_bytes_to_docx demo_env [] empty_world) = Inl (OtherError ''FileDataError'')"
proof -
  have rej: "converter_rejects demo_env [] (OtherError ''FileDataError'')"
    by (auto simp: converter_rejects_def env_defs split: option.splits)
  have nf: "\<forall>c fs. \<not> os_fails demo_env c fs"
    by (simp add: env_defs)
  from converter_error_propagates [OF rej, of empty_world] nf show ?thesis by blast
qed

end
